theory Spec2Isabelle
  imports Main "HOL-Library.Word" "HOL-Library.Sublist"
begin

unbundle bit_operations_syntax

section \<open>JavaScript values used by App.js\<close>

text \<open>
  A JavaScript string is a sequence of 16-bit code units. String literals of the source
  are all ASCII; \<open>js\<close> turns an ASCII literal into its code units.
\<close>

type_synonym js_char = "16 word"
type_synonym js_string = "js_char list"

definition chr :: "char \<Rightarrow> js_char" where
  "chr c = of_nat (of_char c)"

definition js :: "string \<Rightarrow> js_string" where
  "js s = map chr s"

text \<open>
  The values \<open>JSON.parse\<close> and \<open>response.json()\<close> can produce. Numbers are the
  doubles of the platform; no function of App.js looks inside a number, so their type is
  left uninterpreted. An object is the list of its own properties.
\<close>

typedecl js_number

datatype json =
    JNull
  | JBool bool
  | JNumber js_number
  | JString js_string
  | JArray "json list"
  | JObject "(js_string \<times> json) list"

section \<open>The reply extractor (App.js, lines 214-231)\<close>

text \<open>
  \<open>string_at props k\<close> is the test \<open>typeof val[k] === "string"\<close> together with the value
  \<open>val[k]\<close> it guards: the string stored under \<open>k\<close>, if the property exists and holds a
  string.
\<close>

definition string_at :: "(js_string \<times> json) list \<Rightarrow> js_string \<Rightarrow> js_string option" where
  "string_at props k = (case map_of props k of Some (JString s) \<Rightarrow> Some s | _ \<Rightarrow> None)"

definition keys :: "js_string list" where
  "keys = map js [''output'', ''reply'', ''message'', ''content'', ''text'', ''result'']"

text \<open>The loop \<open>for (const k of keys) { if (typeof val[k] === "string") return val[k]; }\<close>.\<close>

fun scan_keys :: "(js_string \<times> json) list \<Rightarrow> js_string list \<Rightarrow> js_string option" where
  "scan_keys props [] = None"
| "scan_keys props (k # ks) =
     (case string_at props k of Some s \<Rightarrow> Some s | None \<Rightarrow> scan_keys props ks)"

text \<open>
  \<open>extractText\<close>; \<open>None\<close> is \<open>undefined\<close>. The empty array fails the test
  \<open>val.length > 0\<close> and reaches the object branch, where it has none of the six
  properties; \<open>null\<close> is falsy, and numbers and booleans are not objects.
\<close>

fun extractText :: "json \<Rightarrow> js_string option" where
  "extractText (JString s) = Some s"
| "extractText (JArray (x # xs)) = extractText x"
| "extractText (JArray []) = None"
| "extractText (JObject props) = scan_keys props keys"
| "extractText JNull = None"
| "extractText (JBool b) = None"
| "extractText (JNumber n) = None"

section \<open>String primitives of the platform\<close>

text \<open>
  \<open>String.prototype.trim\<close> removes the ECMAScript white space and line terminator code
  units from both ends.
\<close>

definition isWhiteSpace :: "js_char \<Rightarrow> bool" where
  "isWhiteSpace c \<longleftrightarrow>
     c \<in> set [0x0009, 0x000A, 0x000B, 0x000C, 0x000D, 0x0020, 0x00A0, 0x1680,
                0x2028, 0x2029, 0x202F, 0x205F, 0x3000, 0xFEFF]
     \<or> (0x2000 \<le> c \<and> c \<le> 0x200A)"

definition trim :: "js_string \<Rightarrow> js_string" where
  "trim s = rev (dropWhile isWhiteSpace (rev (dropWhile isWhiteSpace s)))"

text \<open>\<open>s.includes(sub)\<close>: \<open>sub\<close> occurs in \<open>s\<close> as a contiguous run.\<close>

fun js_includes :: "js_string \<Rightarrow> js_string \<Rightarrow> bool" where
  "js_includes [] sub = (sub = [])"
| "js_includes (c # cs) sub = (prefix sub (c # cs) \<or> js_includes cs sub)"

text \<open>The decimal rendering of a number in a template literal, for the HTTP status.\<close>

fun decimal :: "nat \<Rightarrow> js_string" where
  "decimal n =
     (if n < 10 then [of_nat (48 + n)]
      else decimal (n div 10) @ [of_nat (48 + n mod 10)])"

declare decimal.simps [simp del]

section \<open>The conversation state (App.js, lines 39-47)\<close>

datatype role = User | Assistant

record chat_message =
  role :: role
  content :: js_string

record app_state =
  messages :: "chat_message list"
  input :: js_string
  loading :: bool
  errorText :: js_string

definition initial_state :: app_state where
  "initial_state = \<lparr>messages = [], input = [], loading = False, errorText = []\<rparr>"

text \<open>The request body \<open>{ session: sessionId, message: text }\<close>.\<close>

record payload =
  session :: js_string
  message :: js_string

section \<open>The transport and the JSON functions of the platform\<close>

text \<open>
  What \<open>fetch\<close> hands back. The promise rejects with an error (\<open>Rejected\<close> carries its
  \<open>message\<close>) or resolves with a response. \<open>content_type\<close> is
  \<open>response.headers.get("content-type")\<close>, \<open>None\<close> for \<open>null\<close>. \<open>body\<close> is what reading
  the body gives: \<open>Inr\<close> the text, or \<open>Inl\<close> the message of the error the read rejects
  with.
\<close>

record response =
  ok :: bool
  status :: nat
  statusText :: js_string
  content_type :: "js_string option"
  body :: "js_string + js_string"

datatype fetch_result = Rejected js_string | Resolved response

text \<open>
  \<open>JSON.parse\<close> and \<open>JSON.stringify\<close> are functions of the platform, taken as parameters.
  \<open>JSON_parse\<close> returns \<open>Inl\<close> the message of the SyntaxError it throws, or \<open>Inr\<close> the
  value; \<open>response.json()\<close> is \<open>JSON_parse\<close> on the body text.
\<close>

record json_api =
  JSON_parse :: "js_string \<Rightarrow> js_string + json"
  JSON_stringify :: "json \<Rightarrow> js_string"

section \<open>sendMessage (App.js, lines 174-267)\<close>

text \<open>
  \<open>sendMessage\<close> is an async function. Its run up to \<open>await fetch(...)\<close> is the function
  \<open>sendMessage\<close> below: it returns the state after the set-state calls and the request it
  hands to \<open>fetch\<close>, if any; \<open>sid\<close> is the session identifier of the page load. The
  handler reads \<open>messages\<close>, \<open>input\<close> and \<open>loading\<close> from
  the render it was created in; the model takes them from the current state, that is, the
  component has re-rendered since the last event.
\<close>

definition sendMessage :: "js_string \<Rightarrow> app_state \<Rightarrow> js_string option \<Rightarrow> app_state \<times> payload option" where
  "sendMessage sid s overrideText =
     (let textSource = (case overrideText of Some t \<Rightarrow> t | None \<Rightarrow> input s);
          text = trim textSource
      in if length text = 0 \<or> loading s then (s, None)
         else (s\<lparr>errorText := [], loading := True,
                 messages := messages s @ [\<lparr>role = User, content = text\<rparr>],
                 input := []\<rparr>,
               Some \<lparr>session = sid, message = text\<rparr>))"

text \<open>
  The body of the \<open>try\<close> block after \<open>fetch\<close> has settled (lines 205-249): \<open>Inl\<close> the
  message of the error thrown, \<open>Inr\<close> the value of \<open>markdownReply\<close>.
\<close>

definition try_block :: "json_api \<Rightarrow> fetch_result \<Rightarrow> js_string + js_string" where
  "try_block api r =
     (case r of
        Rejected err_message \<Rightarrow> Inl err_message
      | Resolved resp \<Rightarrow>
          if \<not> ok resp then
            Inl (js ''Request failed ('' @ decimal (status resp) @ js '' '' @ statusText resp @ js '')'')
          else
            let contentType = (case content_type resp of None \<Rightarrow> [] | Some c \<Rightarrow> c) in
            if js_includes contentType (js ''application/json'') then
              (case body resp of
                 Inl err_message \<Rightarrow> Inl err_message
               | Inr b \<Rightarrow>
                   (case JSON_parse api b of
                      Inl err_message \<Rightarrow> Inl err_message
                    | Inr data \<Rightarrow>
                        (case extractText data of
                           Some markdownReply \<Rightarrow> Inr markdownReply
                         | None \<Rightarrow> Inr (JSON_stringify api data))))
            else
              (case body resp of
                 Inl err_message \<Rightarrow> Inl err_message
               | Inr raw \<Rightarrow>
                   (case JSON_parse api raw of
                      Inr maybe \<Rightarrow>
                        (case extractText maybe of
                           Some picked \<Rightarrow> Inr picked
                         | None \<Rightarrow> Inr raw)
                    | Inl _ \<Rightarrow> Inr raw)))"

text \<open>
  The rest of the async function, run when \<open>fetch\<close> has settled: the assistant message
  of line 252 or the \<open>catch\<close> block, then \<open>finally\<close>. Its set-state calls are functional
  updates or constants, so it acts on the state current at that time.
\<close>

definition sendMessage_resume :: "json_api \<Rightarrow> app_state \<Rightarrow> fetch_result \<Rightarrow> app_state" where
  "sendMessage_resume api s r =
     (case try_block api r of
        Inr markdownReply \<Rightarrow>
          s\<lparr>messages := messages s @ [\<lparr>role = Assistant, content = markdownReply\<rparr>],
            loading := False\<rparr>
      | Inl err_message \<Rightarrow>
          (let friendly = js ''Sorry, I could not reach the API. '' @ err_message
           in s\<lparr>messages := messages s @ [\<lparr>role = Assistant, content = friendly\<rparr>],
                errorText := friendly,
                loading := False\<rparr>))"

section \<open>The event handlers (App.js, lines 140-144, 270-275, 493-498, 512-519)\<close>

record key_event =
  key :: js_string
  shiftKey :: bool
  ctrlKey :: bool
  altKey :: bool
  metaKey :: bool

definition quickSend :: "js_string \<Rightarrow> app_state \<Rightarrow> js_string \<Rightarrow> app_state \<times> payload option" where
  "quickSend sid s prompt =
     (if loading s then (s, None)
      else sendMessage sid (s\<lparr>input := prompt\<rparr>) (Some prompt))"

text \<open>
  \<open>onKeyDown\<close> of the textarea. The third component tells whether \<open>e.preventDefault()\<close>
  was called; when it was not, the browser performs the default action of the key, which
  for Enter in a textarea is to insert a line break.
\<close>

definition onKeyDown :: "js_string \<Rightarrow> app_state \<Rightarrow> key_event \<Rightarrow> app_state \<times> payload option \<times> bool" where
  "onKeyDown sid s e =
     (if key e = js ''Enter'' \<and> \<not> shiftKey e
      then (fst (sendMessage sid s None), snd (sendMessage sid s None), True)
      else (s, None, False))"

datatype ui_event =
    InputChange js_string
  | InputKeyDown key_event
  | SendClick
  | PromptClick js_string
  | PromptKeyDown js_string key_event

fun dispatch_event :: "js_string \<Rightarrow> app_state \<Rightarrow> ui_event \<Rightarrow> app_state \<times> payload option" where
  "dispatch_event sid s (InputChange v) = (s\<lparr>input := v\<rparr>, None)"
| "dispatch_event sid s (InputKeyDown e) =
     (fst (onKeyDown sid s e), fst (snd (onKeyDown sid s e)))"
| "dispatch_event sid s SendClick = sendMessage sid s None"
| "dispatch_event sid s (PromptClick it) = quickSend sid s it"
| "dispatch_event sid s (PromptKeyDown it e) =
     (if key e = js ''Enter'' \<or> key e = js '' '' then quickSend sid s it else (s, None))"

text \<open>The state after a sequence of user events, none of which is the settling of a call.\<close>

fun ui_events :: "js_string \<Rightarrow> app_state \<Rightarrow> ui_event list \<Rightarrow> app_state" where
  "ui_events sid s [] = s"
| "ui_events sid s (ev # evs) = ui_events sid (fst (dispatch_event sid s ev)) evs"

section \<open>The component with its outstanding calls\<close>

text \<open>
  The component together with the calls to \<open>fetch\<close> that have not settled yet. A user
  event runs its handler; a request the handler hands to \<open>fetch\<close> joins \<open>in_flight\<close>.
  \<open>Settle i r\<close> is the \<open>i\<close>-th outstanding call settling with \<open>r\<close>: it leaves
  \<open>in_flight\<close> and the rest of \<open>sendMessage\<close> runs. An action that is not possible gives
  \<open>None\<close>.
\<close>

record system =
  ui :: app_state
  in_flight :: "payload list"

datatype action = UI ui_event | Settle nat fetch_result

fun act :: "json_api \<Rightarrow> js_string \<Rightarrow> system \<Rightarrow> action \<Rightarrow> system option" where
  "act api sid \<sigma> (UI ev) =
     Some \<lparr>ui = fst (dispatch_event sid (ui \<sigma>) ev),
           in_flight = in_flight \<sigma> @
             (case snd (dispatch_event sid (ui \<sigma>) ev) of None \<Rightarrow> [] | Some p \<Rightarrow> [p])\<rparr>"
| "act api sid \<sigma> (Settle i r) =
     (if i < length (in_flight \<sigma>)
      then Some \<lparr>ui = sendMessage_resume api (ui \<sigma>) r,
                 in_flight = take i (in_flight \<sigma>) @ drop (Suc i) (in_flight \<sigma>)\<rparr>
      else None)"

fun run :: "json_api \<Rightarrow> js_string \<Rightarrow> system \<Rightarrow> action list \<Rightarrow> system option" where
  "run api sid \<sigma> [] = Some \<sigma>"
| "run api sid \<sigma> (a # as) =
     (case act api sid \<sigma> a of None \<Rightarrow> None | Some \<sigma>' \<Rightarrow> run api sid \<sigma>' as)"

definition initial_system :: system where
  "initial_system = \<lparr>ui = initial_state, in_flight = []\<rparr>"

section \<open>The session identifier (App.js, lines 18-37)\<close>

type_synonym u8 = "8 word"

text \<open>
  \<open>n.toString(16)\<close> for a non-negative integer, \<open>s.padStart(n, pad)\<close> and
  \<open>s.slice(a, b)\<close> for indices that are not negative.
\<close>

definition hexDigit :: "nat \<Rightarrow> js_char" where
  "hexDigit d = js ''0123456789abcdef'' ! d"

fun toString16 :: "nat \<Rightarrow> js_string" where
  "toString16 n =
     (if n < 16 then [hexDigit n] else toString16 (n div 16) @ [hexDigit (n mod 16)])"

declare toString16.simps [simp del]

definition padStart :: "js_string \<Rightarrow> nat \<Rightarrow> js_string \<Rightarrow> js_string" where
  "padStart s n pad =
     take (n - length s) (concat (replicate (n - length s) pad)) @ s"

definition slice :: "js_string \<Rightarrow> nat \<Rightarrow> nat \<Rightarrow> js_string" where
  "slice s a b = take (b - a) (drop a s)"

definition toHex :: "u8 \<Rightarrow> js_string" where
  "toHex n = padStart (toString16 (unat n)) 2 (js ''0'')"

text \<open>
  The random sources of the browser. \<open>randomUUID\<close> is \<open>Some u\<close> when
  \<open>window.crypto.randomUUID\<close> is a function, \<open>u\<close> being what the call returns.
  \<open>getRandomValues\<close> is \<open>Some f\<close> when \<open>window.crypto.getRandomValues\<close> is a function,
  \<open>f i\<close> being the byte it writes at index \<open>i\<close>. \<open>Math_random_256 i\<close> is the value of
  \<open>Math.floor(Math.random() * 256)\<close> in iteration \<open>i\<close> of the loop; storing it into the
  \<open>Uint8Array\<close> keeps it modulo 256.
\<close>

record crypto_env =
  randomUUID :: "js_string option"
  getRandomValues :: "(nat \<Rightarrow> u8) option"
  Math_random_256 :: "nat \<Rightarrow> nat"

text \<open>The loop \<open>for (let i = 0; i < 16; i += 1) bytes[i] = ...\<close> of lines 28-30.\<close>

function fill_loop :: "(nat \<Rightarrow> nat) \<Rightarrow> nat \<Rightarrow> u8 list \<Rightarrow> u8 list" where
  "fill_loop rnd i bytes =
     (if i < 16 then fill_loop rnd (i + 1) (bytes[i := of_nat (rnd i)]) else bytes)"
  by pat_completeness auto
termination
  by (relation "measure (\<lambda>(rnd, i, bytes). 16 - i)") auto

declare fill_loop.simps [simp del]

definition sessionId :: "crypto_env \<Rightarrow> js_string" where
  "sessionId env =
     (case randomUUID env of
        Some u \<Rightarrow> u
      | None \<Rightarrow>
          (let bytes0 = replicate 16 (0 :: u8);
               bytes1 = (case getRandomValues env of
                           Some f \<Rightarrow> map f [0..<length bytes0]
                         | None \<Rightarrow> fill_loop (Math_random_256 env) 0 bytes0);
               bytes2 = bytes1[6 := (bytes1 ! 6 AND 0x0f) OR 0x40];
               bytes3 = bytes2[8 := (bytes2 ! 8 AND 0x3f) OR 0x80];
               hex = concat (map toHex bytes3)
           in slice hex 0 8 @ js ''-'' @ slice hex 8 12 @ js ''-'' @ slice hex 12 16 @ js ''-''
              @ slice hex 16 20 @ js ''-'' @ drop 20 hex))"

text \<open>
  The canonical pattern of a version 4, variant 10 UUID: \<open>x\<close> stands for a lower-case
  hexadecimal digit, \<open>y\<close> for one of 8, 9, a, b, every other character for itself.
\<close>

definition matches_char :: "char \<Rightarrow> js_char \<Rightarrow> bool" where
  "matches_char p c =
     (if p = CHR ''x'' then c \<in> set (js ''0123456789abcdef'')
      else if p = CHR ''y'' then c \<in> set (js ''89ab'')
      else c = chr p)"

definition is_uuid_v4 :: "js_string \<Rightarrow> bool" where
  "is_uuid_v4 s = list_all2 matches_char ''xxxxxxxx-xxxx-4xxx-yxxx-xxxxxxxxxxxx'' s"

section \<open>Rendering a message (App.js, lines 147-171)\<close>

text \<open>\<open>raw.replaceAll(p, rep)\<close> for a pattern \<open>p\<close> of one code unit.\<close>

definition replaceAll :: "js_string \<Rightarrow> js_char \<Rightarrow> js_string \<Rightarrow> js_string" where
  "replaceAll raw p rep = concat (map (\<lambda>c. if c = p then rep else [c]) raw)"

definition escapeHtml :: "js_string \<Rightarrow> js_string" where
  "escapeHtml raw =
     replaceAll
       (replaceAll
         (replaceAll
           (replaceAll
             (replaceAll raw (chr CHR ''&'') (js ''&amp;''))
             (chr CHR ''<'') (js ''&lt;''))
           (chr CHR ''>'') (js ''&gt;''))
         (chr CHR 0x22) (js ''&quot;''))
       (chr CHR 0x27) (js ''&#039;'')"

text \<open>The template literal of lines 160 and 169: the escaped text between \<open><pre>\<close> tags.\<close>

definition preformatted :: "js_string \<Rightarrow> js_string" where
  "preformatted mdText = js ''<pre>'' @ [chr CHR 0x0A] @ escapeHtml mdText @ [chr CHR 0x0A] @ js ''</pre>''"

text \<open>
  The two libraries loaded at run time. \<open>marked_parse\<close> is \<open>Some f\<close> when
  \<open>markedReadyRef.current && window.marked\<close> holds, \<open>f\<close> being \<open>window.marked.parse\<close>;
  \<open>DOMPurify_sanitize\<close> likewise for \<open>purifyReadyRef.current && window.DOMPurify\<close>. A
  library function returns \<open>Inr\<close> its result or \<open>Inl\<close> the error it throws.
\<close>

record render_env =
  marked_parse :: "(js_string \<Rightarrow> js_string + js_string) option"
  DOMPurify_sanitize :: "(js_string \<Rightarrow> js_string + js_string) option"

text \<open>
  \<open>renderMarkdown\<close> returns \<open>Inr\<close> the markup of \<open>__html\<close>, or \<open>Inl\<close> an error that leaves
  the function. \<open>try_render\<close> is its \<open>try\<close> block.
\<close>

definition try_render :: "render_env \<Rightarrow> js_string \<Rightarrow> js_string + js_string" where
  "try_render env mdText =
     (case (case marked_parse env of
              Some parse \<Rightarrow> parse mdText
            | None \<Rightarrow> Inr (preformatted mdText)) of
        Inl err \<Rightarrow> Inl err
      | Inr parsed \<Rightarrow>
          (case DOMPurify_sanitize env of
             Some sanitize \<Rightarrow> sanitize parsed
           | None \<Rightarrow> Inr parsed))"

definition renderMarkdown :: "render_env \<Rightarrow> js_string \<Rightarrow> js_string + js_string" where
  "renderMarkdown env mdText =
     (case try_render env mdText of
        Inr sanitized \<Rightarrow> Inr sanitized
      | Inl err \<Rightarrow> Inr (preformatted mdText))"

text \<open>
  The escaping as the specification words it: each of the five characters is replaced by
  its entity, every other code unit is kept, in one pass over the text.
\<close>

definition html_entity :: "js_char \<Rightarrow> js_string" where
  "html_entity c =
     (if c = chr CHR ''&'' then js ''&amp;''
      else if c = chr CHR ''<'' then js ''&lt;''
      else if c = chr CHR ''>'' then js ''&gt;''
      else if c = chr CHR 0x22 then js ''&quot;''
      else if c = chr CHR 0x27 then js ''&#039;''
      else [c])"

section \<open>The single request slot\<close>

text \<open>
  The number of outstanding calls is one while \<open>loading\<close> is set and zero otherwise.
\<close>

definition one_slot :: "system \<Rightarrow> bool" where
  "one_slot \<sigma> \<longleftrightarrow> length (in_flight \<sigma>) = (if loading (ui \<sigma>) then 1 else 0)"

section \<open>Sample environments\<close>

text \<open>Concrete platforms and inputs on which the theorems below are instantiated.\<close>

definition sample_session :: js_string where
  "sample_session = js ''3f2a9c1e-0b7d-4e5a-9c3b-1a2b3c4d5e6f''"

definition sample_parse :: "js_string \<Rightarrow> js_string + json" where
  "sample_parse b =
     (if b = js ''null'' then Inr JNull
      else if b = js ''{}'' then Inr (JObject [])
      else if b = js ''[]'' then Inr (JArray [])
      else Inl (js ''Unexpected token''))"

definition sample_stringify :: "json \<Rightarrow> js_string" where
  "sample_stringify v =
     (case v of JObject props \<Rightarrow> js ''{}'' | JArray xs \<Rightarrow> js ''[]'' | _ \<Rightarrow> js ''null'')"

definition sample_api :: json_api where
  "sample_api = \<lparr>JSON_parse = sample_parse, JSON_stringify = sample_stringify\<rparr>"

definition sample_crypto_native :: crypto_env where
  "sample_crypto_native =
     \<lparr>randomUUID = Some sample_session, getRandomValues = None, Math_random_256 = (\<lambda>i. 0)\<rparr>"

definition sample_crypto_strong :: crypto_env where
  "sample_crypto_strong =
     \<lparr>randomUUID = None, getRandomValues = Some (\<lambda>i. of_nat (37 * i + 11)),
      Math_random_256 = (\<lambda>i. 0)\<rparr>"

definition sample_crypto_weak :: crypto_env where
  "sample_crypto_weak =
     \<lparr>randomUUID = None, getRandomValues = None, Math_random_256 = (\<lambda>i. 255 - 3 * i)\<rparr>"

text \<open>
  A sanitizer that parses the markup and writes it back: in the text of an element the
  character reference \<open>&#039;\<close> comes back as the apostrophe it stands for.
\<close>

fun decode_apos :: "js_string \<Rightarrow> js_string" where
  "decode_apos [] = []"
| "decode_apos (c # cs) =
     (if prefix (js ''&#039;'') (c # cs) then chr CHR 0x27 # decode_apos (drop 5 cs)
      else c # decode_apos cs)"

definition sample_sanitize :: "js_string \<Rightarrow> js_string + js_string" where
  "sample_sanitize h = Inr (decode_apos h)"

definition failing_marked :: "js_string \<Rightarrow> js_string + js_string" where
  "failing_marked mdText = Inl (js ''Maximum call stack size exceeded'')"

definition enter_key :: "bool \<Rightarrow> bool \<Rightarrow> key_event" where
  "enter_key shift ctrl =
     \<lparr>key = js ''Enter'', shiftKey = shift, ctrlKey = ctrl, altKey = False, metaKey = False\<rparr>"

definition sample_pending :: app_state where
  "sample_pending =
     \<lparr>messages = [\<lparr>role = User, content = js ''hi''\<rparr>], input = [], loading = True,
      errorText = []\<rparr>"

definition sample_response_500 :: response where
  "sample_response_500 =
     \<lparr>ok = False, status = 500, statusText = js ''Internal Server Error'',
      content_type = Some (js ''text/html''), body = Inr (js ''<h1>oops</h1>'')\<rparr>"

definition sample_response_bad_json :: response where
  "sample_response_bad_json =
     \<lparr>ok = True, status = 200, statusText = js ''OK'',
      content_type = Some (js ''application/json; charset=utf-8''), body = Inr (js ''oops'')\<rparr>"

definition sample_response_json_null :: response where
  "sample_response_json_null =
     \<lparr>ok = True, status = 200, statusText = js ''OK'',
      content_type = Some (js ''application/json''), body = Inr (js ''null'')\<rparr>"

definition sample_response_text :: response where
  "sample_response_text =
     \<lparr>ok = True, status = 200, statusText = js ''OK'',
      content_type = Some (js ''text/plain''), body = Inr (js ''hello'')\<rparr>"

definition sample_response_mislabelled :: response where
  "sample_response_mislabelled =
     \<lparr>ok = True, status = 200, statusText = js ''OK'',
      content_type = None, body = Inr (js ''{}'')\<rparr>"

section \<open>Properties of the reply extractor\<close>

lemma string_at_Some_iff: "string_at props k = Some s \<longleftrightarrow> map_of props k = Some (JString s)"
  by (auto simp: string_at_def split: option.splits json.splits)

lemma string_at_None_iff: "string_at props k = None \<longleftrightarrow> (\<forall>u. map_of props k \<noteq> Some (JString u))"
  by (auto simp: string_at_def split: option.splits json.splits)

lemma scan_keys_None_iff:
  "scan_keys props ks = None \<longleftrightarrow> (\<forall>k\<in>set ks. \<forall>u. map_of props k \<noteq> Some (JString u))"
proof (induction ks)
  case Nil
  show ?case by simp
next
  case (Cons k ks)
  show ?case
  proof (cases "string_at props k")
    case None
    then show ?thesis
      using Cons.IH by (simp add: string_at_None_iff [symmetric])
  next
    case (Some s)
    then have "map_of props k = Some (JString s)"
      by (simp add: string_at_Some_iff)
    then show ?thesis
      using Some by auto
  qed
qed

lemma scan_keys_Some_iff:
  "scan_keys props ks = Some t \<longleftrightarrow>
     (\<exists>ks1 k ks2. ks = ks1 @ k # ks2 \<and> map_of props k = Some (JString t)
        \<and> (\<forall>k'\<in>set ks1. \<forall>u. map_of props k' \<noteq> Some (JString u)))"
proof (induction ks)
  case Nil
  show ?case by simp
next
  case (Cons k ks)
  show ?case
  proof (cases "string_at props k")
    case None
    then have no: "\<forall>u. map_of props k \<noteq> Some (JString u)"
      by (simp add: string_at_None_iff)
    have "scan_keys props (k # ks) = scan_keys props ks"
      using None by simp
    moreover have "(\<exists>ks1 k' ks2. k # ks = ks1 @ k' # ks2 \<and> map_of props k' = Some (JString t)
        \<and> (\<forall>k''\<in>set ks1. \<forall>u. map_of props k'' \<noteq> Some (JString u)))
      \<longleftrightarrow> (\<exists>ks1 k' ks2. ks = ks1 @ k' # ks2 \<and> map_of props k' = Some (JString t)
        \<and> (\<forall>k''\<in>set ks1. \<forall>u. map_of props k'' \<noteq> Some (JString u)))"
    proof
      assume "\<exists>ks1 k' ks2. k # ks = ks1 @ k' # ks2 \<and> map_of props k' = Some (JString t)
        \<and> (\<forall>k''\<in>set ks1. \<forall>u. map_of props k'' \<noteq> Some (JString u))"
      then obtain ks1 k' ks2 where d: "k # ks = ks1 @ k' # ks2"
        and v: "map_of props k' = Some (JString t)"
        and b: "\<forall>k''\<in>set ks1. \<forall>u. map_of props k'' \<noteq> Some (JString u)"
        by blast
      from d v no obtain ks1' where "ks1 = k # ks1'" and "ks = ks1' @ k' # ks2"
        by (cases ks1) auto
      then show "\<exists>ks1 k' ks2. ks = ks1 @ k' # ks2 \<and> map_of props k' = Some (JString t)
        \<and> (\<forall>k''\<in>set ks1. \<forall>u. map_of props k'' \<noteq> Some (JString u))"
        using v b by auto
    next
      assume "\<exists>ks1 k' ks2. ks = ks1 @ k' # ks2 \<and> map_of props k' = Some (JString t)
        \<and> (\<forall>k''\<in>set ks1. \<forall>u. map_of props k'' \<noteq> Some (JString u))"
      then obtain ks1 k' ks2 where d: "ks = ks1 @ k' # ks2"
        and v: "map_of props k' = Some (JString t)"
        and b: "\<forall>k''\<in>set ks1. \<forall>u. map_of props k'' \<noteq> Some (JString u)"
        by blast
      have "k # ks = (k # ks1) @ k' # ks2"
        using d by simp
      moreover have "\<forall>k''\<in>set (k # ks1). \<forall>u. map_of props k'' \<noteq> Some (JString u)"
        using b no by simp
      ultimately show "\<exists>ks1 k' ks2. k # ks = ks1 @ k' # ks2 \<and> map_of props k' = Some (JString t)
        \<and> (\<forall>k''\<in>set ks1. \<forall>u. map_of props k'' \<noteq> Some (JString u))"
        using v by blast
    qed
    ultimately show ?thesis
      using Cons.IH by simp
  next
    case (Some s)
    then have here: "map_of props k = Some (JString s)"
      by (simp add: string_at_Some_iff)
    have l: "scan_keys props (k # ks) = Some s"
      using Some by simp
    have "(\<exists>ks1 k' ks2. k # ks = ks1 @ k' # ks2 \<and> map_of props k' = Some (JString t)
        \<and> (\<forall>k''\<in>set ks1. \<forall>u. map_of props k'' \<noteq> Some (JString u))) \<longleftrightarrow> s = t"
    proof
      assume "\<exists>ks1 k' ks2. k # ks = ks1 @ k' # ks2 \<and> map_of props k' = Some (JString t)
        \<and> (\<forall>k''\<in>set ks1. \<forall>u. map_of props k'' \<noteq> Some (JString u))"
      then obtain ks1 k' ks2 where d: "k # ks = ks1 @ k' # ks2"
        and v: "map_of props k' = Some (JString t)"
        and b: "\<forall>k''\<in>set ks1. \<forall>u. map_of props k'' \<noteq> Some (JString u)"
        by blast
      show "s = t"
      proof (cases ks1)
        case Nil
        then have "k' = k" using d by simp
        then show ?thesis using v here by simp
      next
        case (Cons a list)
        then have "a = k" using d by simp
        then have "k \<in> set ks1" using Cons by simp
        then show ?thesis using b here by blast
      qed
    next
      assume "s = t"
      then have "k # ks = [] @ k # ks \<and> map_of props k = Some (JString t)
        \<and> (\<forall>k''\<in>set []. \<forall>u. map_of props k'' \<noteq> Some (JString u))"
        using here by simp
      then show "\<exists>ks1 k' ks2. k # ks = ks1 @ k' # ks2 \<and> map_of props k' = Some (JString t)
        \<and> (\<forall>k''\<in>set ks1. \<forall>u. map_of props k'' \<noteq> Some (JString u))"
        by blast
    qed
    then show ?thesis
      using l by simp
  qed
qed

text \<open>
  Claim C1. The extractor follows the documented precedence. A string is returned as it
  is. A non-empty array is resolved through its first element only. For an object, the
  result is the string \<open>t\<close> exactly when some key \<open>k\<close> of output, reply, message, content,
  text, result holds the string \<open>t\<close> itself in the object and no key before \<open>k\<close> in that
  order holds a string; the result is undefined exactly when none of the six keys holds a
  string. A value under such a key that is not a string (an object, an array, a number) is
  passed over, not searched. Every other value yields undefined. The five documented
  examples hold, and so do: a property outside the list before a listed one; an array
  and an object under a preferred key; two listed keys in the other order; an object as
  first element of an array.
\<close>

theorem extractText_precedence:
  "extractText (JString s) = Some s
   \<and> extractText (JArray (x # xs)) = extractText x
   \<and> (extractText (JObject props) = Some t \<longleftrightarrow>
        (\<exists>ks1 k ks2.
           map js [''output'', ''reply'', ''message'', ''content'', ''text'', ''result'']
             = ks1 @ k # ks2
           \<and> map_of props k = Some (JString t)
           \<and> (\<forall>k'\<in>set ks1. \<forall>u. map_of props k' \<noteq> Some (JString u))))
   \<and> (extractText (JObject props) = None \<longleftrightarrow>
        (\<forall>k\<in>set (map js [''output'', ''reply'', ''message'', ''content'', ''text'', ''result'']).
           \<forall>u. map_of props k \<noteq> Some (JString u)))
   \<and> extractText (JArray []) = None
   \<and> extractText JNull = None
   \<and> extractText (JBool b) = None
   \<and> extractText (JNumber n) = None
   \<and> extractText (JString (js ''hello'')) = Some (js ''hello'')
   \<and> extractText (JArray [JString (js ''a''), JString (js ''b'')]) = Some (js ''a'')
   \<and> extractText (JObject [(js ''reply'', JString (js ''hi''))]) = Some (js ''hi'')
   \<and> extractText (JObject [(js ''output'', JObject [(js ''x'', JNumber one)])]) = None
   \<and> extractText (JObject [(js ''foo'', JString (js ''bar''))]) = None
   \<and> extractText (JObject [(js ''foo'', JString (js ''x'')), (js ''reply'', JString (js ''hi''))])
       = Some (js ''hi'')
   \<and> extractText (JObject [(js ''output'', JArray [JString (js ''deep'')])]) = None
   \<and> extractText (JObject [(js ''reply'', JString (js ''r'')), (js ''output'', JString (js ''o''))])
       = Some (js ''o'')
   \<and> extractText (JObject [(js ''output'', JObject [(js ''text'', JString (js ''inner''))]),
                            (js ''message'', JString (js ''m''))])
       = Some (js ''m'')
   \<and> extractText (JArray [JObject [(js ''reply'', JString (js ''hi''))], JString (js ''b'')])
       = Some (js ''hi'')"
proof -
  have some: "extractText (JObject props) = Some t \<longleftrightarrow>
        (\<exists>ks1 k ks2.
           map js [''output'', ''reply'', ''message'', ''content'', ''text'', ''result'']
             = ks1 @ k # ks2
           \<and> map_of props k = Some (JString t)
           \<and> (\<forall>k'\<in>set ks1. \<forall>u. map_of props k' \<noteq> Some (JString u)))"
    using scan_keys_Some_iff [of props keys t] by (simp only: extractText.simps keys_def)
  have none: "extractText (JObject props) = None \<longleftrightarrow>
        (\<forall>k\<in>set (map js [''output'', ''reply'', ''message'', ''content'', ''text'', ''result'']).
           \<forall>u. map_of props k \<noteq> Some (JString u))"
    using scan_keys_None_iff [of props keys] by (simp only: extractText.simps keys_def)
  have e3: "extractText (JObject [(js ''reply'', JString (js ''hi''))]) = Some (js ''hi'')"
    by (simp add: keys_def string_at_def js_def chr_def)
  have e4: "extractText (JObject [(js ''output'', JObject [(js ''x'', JNumber one)])]) = None"
    by (simp add: keys_def string_at_def js_def chr_def)
  have e5: "extractText (JObject [(js ''foo'', JString (js ''bar''))]) = None"
    by (simp add: keys_def string_at_def js_def chr_def)
  have e6: "extractText (JObject [(js ''foo'', JString (js ''x'')), (js ''reply'', JString (js ''hi''))])
       = Some (js ''hi'')"
    by (simp add: keys_def string_at_def js_def chr_def)
  have e7: "extractText (JObject [(js ''output'', JArray [JString (js ''deep'')])]) = None"
    by (simp add: keys_def string_at_def js_def chr_def)
  have e8: "extractText (JObject [(js ''reply'', JString (js ''r'')), (js ''output'', JString (js ''o''))])
       = Some (js ''o'')"
    by (simp add: keys_def string_at_def js_def chr_def)
  have e9: "extractText (JObject [(js ''output'', JObject [(js ''text'', JString (js ''inner''))]),
                            (js ''message'', JString (js ''m''))])
       = Some (js ''m'')"
    by (simp add: keys_def string_at_def js_def chr_def)
  have e10: "extractText (JArray [JObject [(js ''reply'', JString (js ''hi''))], JString (js ''b'')])
       = Some (js ''hi'')"
    by (simp add: keys_def string_at_def js_def chr_def)
  have rest: "extractText (JString s) = Some s"
    "extractText (JArray (x # xs)) = extractText x"
    "extractText (JArray []) = None"
    "extractText JNull = None"
    "extractText (JBool b) = None"
    "extractText (JNumber n) = None"
    "extractText (JString (js ''hello'')) = Some (js ''hello'')"
    "extractText (JArray [JString (js ''a''), JString (js ''b'')]) = Some (js ''a'')"
    by simp_all
  show ?thesis
    by (intro conjI some none e3 e4 e5 e6 e7 e8 e9 e10 rest)
qed

text \<open>
  Instances: in \<open>{foo: "x", reply: "hi"}\<close> the key reply is the first of the six that
  holds a string; in \<open>{output: ["deep"]}\<close> none of the six holds a string.
\<close>

theorem extractText_precedence_witness:
  "map_of [(js ''foo'', JString (js ''x'')), (js ''reply'', JString (js ''hi''))] (js ''reply'')
     = Some (JString (js ''hi''))
   \<and> map_of [(js ''foo'', JString (js ''x'')), (js ''reply'', JString (js ''hi''))] (js ''output'')
     = None
   \<and> extractText (JObject [(js ''foo'', JString (js ''x'')), (js ''reply'', JString (js ''hi''))])
     = Some (js ''hi'')
   \<and> map_of [(js ''output'', JArray [JString (js ''deep'')])] (js ''output'')
     = Some (JArray [JString (js ''deep'')])
   \<and> extractText (JObject [(js ''output'', JArray [JString (js ''deep'')])]) = None"
proof -
  let ?p = "[(js ''foo'', JString (js ''x'')), (js ''reply'', JString (js ''hi''))]"
  let ?q = "[(js ''output'', JArray [JString (js ''deep'')])]"
  have at_reply: "map_of ?p (js ''reply'') = Some (JString (js ''hi''))"
    and at_output: "map_of ?p (js ''output'') = None"
    by (simp_all add: js_def chr_def)
  have split: "map js [''output'', ''reply'', ''message'', ''content'', ''text'', ''result'']
      = [js ''output''] @ js ''reply'' # map js [''message'', ''content'', ''text'', ''result'']"
    by simp
  have before: "\<forall>k'\<in>set [js ''output'']. \<forall>u. map_of ?p k' \<noteq> Some (JString u)"
    using at_output by simp
  have found: "extractText (JObject ?p) = Some (js ''hi'')"
    using extractText_precedence [where props = ?p and t = "js ''hi''"] split at_reply before
    by blast
  have q_output: "map_of ?q (js ''output'') = Some (JArray [JString (js ''deep'')])"
    by simp
  have q_none: "\<forall>k\<in>set (map js [''output'', ''reply'', ''message'', ''content'', ''text'', ''result'']).
      \<forall>u. map_of ?q k \<noteq> Some (JString u)"
    by (simp add: js_def chr_def)
  have missed: "extractText (JObject ?q) = None"
    using extractText_precedence [where props = ?q] q_none by blast
  show ?thesis
    using at_reply at_output found q_output missed by simp
qed

section \<open>Properties of sendMessage\<close>

lemma trim_empty_iff: "trim s = [] \<longleftrightarrow> list_all isWhiteSpace s"
proof
  assume "trim s = []"
  then have all: "\<forall>x\<in>set (dropWhile isWhiteSpace s). isWhiteSpace x"
    by (simp add: trim_def dropWhile_eq_Nil_conv)
  have "dropWhile isWhiteSpace s = []"
  proof (rule ccontr)
    assume ne: "dropWhile isWhiteSpace s \<noteq> []"
    then have "\<not> isWhiteSpace (hd (dropWhile isWhiteSpace s))"
      by (rule hd_dropWhile)
    moreover have "hd (dropWhile isWhiteSpace s) \<in> set (dropWhile isWhiteSpace s)"
      using ne by simp
    ultimately show False using all by blast
  qed
  then show "list_all isWhiteSpace s"
    by (simp add: dropWhile_eq_Nil_conv list_all_iff)
next
  assume "list_all isWhiteSpace s"
  then show "trim s = []"
    by (auto simp: trim_def dropWhile_eq_Nil_conv list_all_iff dest: set_dropWhileD)
qed

lemma sendMessage_blank:
  "list_all isWhiteSpace (case ov of Some t \<Rightarrow> t | None \<Rightarrow> input s) \<Longrightarrow>
     sendMessage sid s ov = (s, None)"
  by (simp add: sendMessage_def trim_empty_iff Let_def)

lemma sendMessage_loading: "loading s \<Longrightarrow> sendMessage sid s ov = (s, None)"
  by (simp add: sendMessage_def Let_def)

lemma sendMessage_dispatch:
  "\<not> loading s \<Longrightarrow> trim (case ov of Some t \<Rightarrow> t | None \<Rightarrow> input s) \<noteq> [] \<Longrightarrow>
   sendMessage sid s ov =
     (s\<lparr>errorText := [], loading := True,
        messages := messages s @
          [\<lparr>role = User, content = trim (case ov of Some t \<Rightarrow> t | None \<Rightarrow> input s)\<rparr>],
        input := []\<rparr>,
      Some \<lparr>session = sid, message = trim (case ov of Some t \<Rightarrow> t | None \<Rightarrow> input s)\<rparr>)"
  by (simp add: sendMessage_def Let_def)

lemma sendMessage_flight:
  "(snd (sendMessage sid s ov) = None \<and> fst (sendMessage sid s ov) = s)
   \<or> (snd (sendMessage sid s ov) \<noteq> None \<and> \<not> loading s \<and> loading (fst (sendMessage sid s ov)))"
  by (simp add: sendMessage_def Let_def)

lemma quickSend_loading: "loading s \<Longrightarrow> quickSend sid s p = (s, None)"
  by (simp add: quickSend_def)

lemma onKeyDown_loading:
  "loading s \<Longrightarrow> onKeyDown sid s e = (s, None, key e = js ''Enter'' \<and> \<not> shiftKey e)"
  by (simp add: onKeyDown_def sendMessage_loading)

lemma dispatch_event_loading:
  "loading s \<Longrightarrow> snd (dispatch_event sid s ev) = None
     \<and> messages (fst (dispatch_event sid s ev)) = messages s
     \<and> loading (fst (dispatch_event sid s ev))
     \<and> errorText (fst (dispatch_event sid s ev)) = errorText s"
  by (cases ev) (simp_all add: sendMessage_loading quickSend_loading onKeyDown_loading)

lemma ui_events_loading:
  "loading s \<Longrightarrow> messages (ui_events sid s evs) = messages s \<and> loading (ui_events sid s evs)
     \<and> errorText (ui_events sid s evs) = errorText s"
  by (induction evs arbitrary: s) (simp_all add: dispatch_event_loading)

lemma resume_loading: "\<not> loading (sendMessage_resume api s r)"
  by (simp add: sendMessage_resume_def Let_def split: sum.splits)

lemma resume_messages:
  "messages (sendMessage_resume api s r) =
     messages s @
       [\<lparr>role = Assistant,
         content = (case try_block api r of
                      Inr markdownReply \<Rightarrow> markdownReply
                    | Inl err_message \<Rightarrow> js ''Sorry, I could not reach the API. '' @ err_message)\<rparr>]"
  by (simp add: sendMessage_resume_def Let_def split: sum.splits)

lemma decimal_500: "decimal 500 = js ''500''"
  by code_simp

lemma trim_sample: "trim (js '' hi '') = js ''hi''"
  by (simp add: trim_def isWhiteSpace_def js_def chr_def)

text \<open>
  Claim C2. A submit whose trimmed text is not empty, made while no call is pending,
  appends one user message with the trimmed text at once and sets \<open>loading\<close>. Whatever
  the user does while the call is pending, the log stays as it is: the pending state is
  the flag only, never an entry of the log. When the call settles, with any result, one
  assistant message is appended (the reply on success, the apology on failure), the log
  is two messages longer than before the submit, and \<open>loading\<close> is cleared.
\<close>

theorem submit_appends_user_then_assistant:
  assumes "\<not> loading s"
    and "trim (case overrideText of Some t \<Rightarrow> t | None \<Rightarrow> input s) \<noteq> []"
  shows "messages (fst (sendMessage sid s overrideText)) =
           messages s @
             [\<lparr>role = User,
               content = trim (case overrideText of Some t \<Rightarrow> t | None \<Rightarrow> input s)\<rparr>]
       \<and> loading (fst (sendMessage sid s overrideText))
       \<and> messages (ui_events sid (fst (sendMessage sid s overrideText)) evs) =
           messages (fst (sendMessage sid s overrideText))
       \<and> loading (ui_events sid (fst (sendMessage sid s overrideText)) evs)
       \<and> messages (sendMessage_resume api
                      (ui_events sid (fst (sendMessage sid s overrideText)) evs) r) =
           messages s @
             [\<lparr>role = User,
               content = trim (case overrideText of Some t \<Rightarrow> t | None \<Rightarrow> input s)\<rparr>,
              \<lparr>role = Assistant,
               content = (case try_block api r of
                            Inr markdownReply \<Rightarrow> markdownReply
                          | Inl err_message \<Rightarrow>
                              js ''Sorry, I could not reach the API. '' @ err_message)\<rparr>]
       \<and> length (messages (sendMessage_resume api
                      (ui_events sid (fst (sendMessage sid s overrideText)) evs) r)) =
           length (messages s) + 2
       \<and> \<not> loading (sendMessage_resume api
                      (ui_events sid (fst (sendMessage sid s overrideText)) evs) r)"
proof -
  let ?u = "\<lparr>role = User,
             content = trim (case overrideText of Some t \<Rightarrow> t | None \<Rightarrow> input s)\<rparr>"
  let ?s1 = "fst (sendMessage sid s overrideText)"
  let ?s2 = "ui_events sid ?s1 evs"
  have m1: "messages ?s1 = messages s @ [?u]" and l1: "loading ?s1"
    using assms by (simp_all add: sendMessage_dispatch)
  have m2: "messages ?s2 = messages ?s1" and l2: "loading ?s2"
    using ui_events_loading [OF l1, of sid evs] by simp_all
  show ?thesis
    using m1 l1 m2 l2 resume_messages [of api ?s2 r] resume_loading [of api ?s2 r] by simp
qed

text \<open>
  Instance: the draft " hi " is submitted, the user types and clicks Send again while the
  call is pending, and the call fails with "network down".
\<close>

theorem submit_appends_user_then_assistant_witness:
  "messages (sendMessage_resume sample_api
       (ui_events sample_session
          (fst (sendMessage sample_session (initial_state\<lparr>input := js '' hi ''\<rparr>) None))
          [InputChange (js ''next''), SendClick])
       (Rejected (js ''network down'')))
   = [\<lparr>role = User, content = js ''hi''\<rparr>,
      \<lparr>role = Assistant, content = js ''Sorry, I could not reach the API. network down''\<rparr>]"
proof -
  have idle: "\<not> loading (initial_state\<lparr>input := js '' hi ''\<rparr>)"
    by (simp add: initial_state_def)
  have ne: "trim (case None of Some t \<Rightarrow> t | None \<Rightarrow> input (initial_state\<lparr>input := js '' hi ''\<rparr>)) \<noteq> []"
    by (simp add: trim_sample) (simp add: js_def)
  have "messages (sendMessage_resume sample_api
       (ui_events sample_session
          (fst (sendMessage sample_session (initial_state\<lparr>input := js '' hi ''\<rparr>) None))
          [InputChange (js ''next''), SendClick])
       (Rejected (js ''network down'')))
   = [\<lparr>role = User, content = js ''hi''\<rparr>,
      \<lparr>role = Assistant,
       content = js ''Sorry, I could not reach the API. '' @ js ''network down''\<rparr>]"
    using submit_appends_user_then_assistant [OF idle ne,
        where sid = sample_session and evs = "[InputChange (js ''next''), SendClick]"
          and api = sample_api and r = "Rejected (js ''network down'')"]
    by (simp add: trim_sample try_block_def initial_state_def)
  then show ?thesis
    by (simp add: js_def)
qed

text \<open>
  Claim C3. When the call fails, the rest of \<open>sendMessage\<close> appends an assistant message
  whose content is "Sorry, I could not reach the API. " followed by the failure detail,
  sets \<open>errorText\<close> to that same string and clears \<open>loading\<close>, leaving the draft alone. The
  failures are: \<open>fetch\<close> rejects (the detail is the error's message); the response is not
  ok (the detail is "Request failed (status statusText)"); the response declares JSON and
  its body does not parse (the detail is the parser's message); reading the body fails.
\<close>

theorem failure_surfaces_apology:
  "sendMessage_resume api s (Rejected detail) =
     s\<lparr>messages := messages s @
          [\<lparr>role = Assistant, content = js ''Sorry, I could not reach the API. '' @ detail\<rparr>],
       errorText := js ''Sorry, I could not reach the API. '' @ detail,
       loading := False\<rparr>
   \<and> (\<not> ok resp \<longrightarrow>
        sendMessage_resume api s (Resolved resp) =
          s\<lparr>messages := messages s @
               [\<lparr>role = Assistant,
                 content = js ''Sorry, I could not reach the API. '' @
                   js ''Request failed ('' @ decimal (status resp) @ js '' '' @ statusText resp
                   @ js '')''\<rparr>],
            errorText := js ''Sorry, I could not reach the API. '' @
                   js ''Request failed ('' @ decimal (status resp) @ js '' '' @ statusText resp
                   @ js '')'',
            loading := False\<rparr>)
   \<and> (ok resp
        \<and> js_includes (case content_type resp of None \<Rightarrow> [] | Some c \<Rightarrow> c)
             (js ''application/json'')
        \<and> body resp = Inr b \<and> JSON_parse api b = Inl detail \<longrightarrow>
        sendMessage_resume api s (Resolved resp) =
          s\<lparr>messages := messages s @
               [\<lparr>role = Assistant, content = js ''Sorry, I could not reach the API. '' @ detail\<rparr>],
            errorText := js ''Sorry, I could not reach the API. '' @ detail,
            loading := False\<rparr>)
   \<and> (ok resp \<and> body resp = Inl detail \<longrightarrow>
        sendMessage_resume api s (Resolved resp) =
          s\<lparr>messages := messages s @
               [\<lparr>role = Assistant, content = js ''Sorry, I could not reach the API. '' @ detail\<rparr>],
            errorText := js ''Sorry, I could not reach the API. '' @ detail,
            loading := False\<rparr>)"
  by (simp add: sendMessage_resume_def try_block_def Let_def)

text \<open>
  Instances: a connection error "network down", a 500 response, and a response that
  declares JSON with the body "oops". In the first the log ends with an assistant message
  that contains "network down", and \<open>errorText\<close> is that message's content.
\<close>

theorem failure_surfaces_apology_witness:
  "sendMessage_resume sample_api sample_pending (Rejected (js ''network down'')) =
     \<lparr>messages = [\<lparr>role = User, content = js ''hi''\<rparr>,
                  \<lparr>role = Assistant,
                   content = js ''Sorry, I could not reach the API. network down''\<rparr>],
      input = [], loading = False,
      errorText = js ''Sorry, I could not reach the API. network down''\<rparr>
   \<and> js_includes
        (content (last (messages
           (sendMessage_resume sample_api sample_pending (Rejected (js ''network down''))))))
        (js ''network down'')
   \<and> sendMessage_resume sample_api sample_pending (Resolved sample_response_500) =
     \<lparr>messages = [\<lparr>role = User, content = js ''hi''\<rparr>,
                  \<lparr>role = Assistant,
                   content = js ''Sorry, I could not reach the API. Request failed (500 Internal Server Error)''\<rparr>],
      input = [], loading = False,
      errorText = js ''Sorry, I could not reach the API. Request failed (500 Internal Server Error)''\<rparr>
   \<and> sendMessage_resume sample_api sample_pending (Resolved sample_response_bad_json) =
     \<lparr>messages = [\<lparr>role = User, content = js ''hi''\<rparr>,
                  \<lparr>role = Assistant,
                   content = js ''Sorry, I could not reach the API. Unexpected token''\<rparr>],
      input = [], loading = False,
      errorText = js ''Sorry, I could not reach the API. Unexpected token''\<rparr>"
proof -
  have a: "sendMessage_resume sample_api sample_pending (Rejected (js ''network down'')) =
     \<lparr>messages = [\<lparr>role = User, content = js ''hi''\<rparr>,
                  \<lparr>role = Assistant,
                   content = js ''Sorry, I could not reach the API. network down''\<rparr>],
      input = [], loading = False,
      errorText = js ''Sorry, I could not reach the API. network down''\<rparr>"
    using failure_surfaces_apology [of sample_api sample_pending "js ''network down''"]
    by (simp add: sample_pending_def js_def)
  have b: "js_includes (js ''Sorry, I could not reach the API. network down'') (js ''network down'')"
    by (simp add: js_def chr_def)
  have c: "sendMessage_resume sample_api sample_pending (Resolved sample_response_500) =
     \<lparr>messages = [\<lparr>role = User, content = js ''hi''\<rparr>,
                  \<lparr>role = Assistant,
                   content = js ''Sorry, I could not reach the API. Request failed (500 Internal Server Error)''\<rparr>],
      input = [], loading = False,
      errorText = js ''Sorry, I could not reach the API. Request failed (500 Internal Server Error)''\<rparr>"
    using failure_surfaces_apology [of sample_api sample_pending _ sample_response_500]
    by (simp add: sample_pending_def sample_response_500_def decimal_500 js_def)
  have d: "sendMessage_resume sample_api sample_pending (Resolved sample_response_bad_json) =
     \<lparr>messages = [\<lparr>role = User, content = js ''hi''\<rparr>,
                  \<lparr>role = Assistant,
                   content = js ''Sorry, I could not reach the API. Unexpected token''\<rparr>],
      input = [], loading = False,
      errorText = js ''Sorry, I could not reach the API. Unexpected token''\<rparr>"
    using failure_surfaces_apology [of sample_api sample_pending "js ''Unexpected token''"
        sample_response_bad_json "js ''oops''"]
    by (simp add: sample_pending_def sample_response_bad_json_def sample_api_def
        sample_parse_def js_def chr_def)
  show ?thesis
    using a b c d by simp
qed

text \<open>
  Claim C4. A submit whose text (the override, or the draft when there is none) is empty
  or consists of white space only changes nothing and hands nothing to \<open>fetch\<close>: the log,
  the draft, \<open>loading\<close> and \<open>errorText\<close> are as before.
\<close>

theorem whitespace_submit_is_noop:
  "list_all isWhiteSpace (case overrideText of Some t \<Rightarrow> t | None \<Rightarrow> input s) \<Longrightarrow>
     sendMessage sid s overrideText = (s, None)"
  by (rule sendMessage_blank)

text \<open>
  Instances: an override of two spaces, a line feed and an em space, and an empty draft.
\<close>

theorem whitespace_submit_is_noop_witness:
  "list_all isWhiteSpace (js ''  '' @ [0x000A, 0x2003])
   \<and> sendMessage sample_session (initial_state\<lparr>input := js ''draft''\<rparr>)
         (Some (js ''  '' @ [0x000A, 0x2003]))
       = (initial_state\<lparr>input := js ''draft''\<rparr>, None)
   \<and> sendMessage sample_session initial_state None = (initial_state, None)"
proof -
  have ws: "list_all isWhiteSpace (js ''  '' @ [0x000A, 0x2003])"
    by (simp add: isWhiteSpace_def js_def chr_def)
  have empty: "list_all isWhiteSpace (case None of Some t \<Rightarrow> t | None \<Rightarrow> input initial_state)"
    by (simp add: initial_state_def)
  show ?thesis
    using ws
      whitespace_submit_is_noop [where overrideText = "Some (js ''  '' @ [0x000A, 0x2003])"
        and s = "initial_state\<lparr>input := js ''draft''\<rparr>" and sid = sample_session]
      whitespace_submit_is_noop [OF empty, where sid = sample_session]
    by simp
qed

section \<open>Properties of the request slot, the reply and the event handlers\<close>

lemma dispatch_event_flight:
  "(snd (dispatch_event sid s ev) = None \<and> loading (fst (dispatch_event sid s ev)) = loading s)
   \<or> (snd (dispatch_event sid s ev) \<noteq> None \<and> \<not> loading s
       \<and> loading (fst (dispatch_event sid s ev)))"
proof (cases ev)
  case (InputChange v)
  then show ?thesis by simp
next
  case (InputKeyDown e)
  then show ?thesis
    using sendMessage_flight [of sid s None] by (auto simp: onKeyDown_def)
next
  case SendClick
  then show ?thesis
    using sendMessage_flight [of sid s None] by auto
next
  case (PromptClick it)
  then show ?thesis
    using sendMessage_flight [of sid "s\<lparr>input := it\<rparr>" "Some it"] by (auto simp: quickSend_def)
next
  case (PromptKeyDown it e)
  then show ?thesis
    using sendMessage_flight [of sid "s\<lparr>input := it\<rparr>" "Some it"] by (auto simp: quickSend_def)
qed

lemma act_one_slot:
  assumes "one_slot \<sigma>" and "act api sid \<sigma> a = Some \<sigma>'"
  shows "one_slot \<sigma>'"
proof (cases a)
  case (UI ev)
  then show ?thesis
    using assms dispatch_event_flight [of sid "ui \<sigma>" ev]
    by (auto simp: one_slot_def split: option.splits)
next
  case (Settle i r)
  then show ?thesis
    using assms resume_loading [of api "ui \<sigma>" r]
    by (auto simp: one_slot_def split: if_splits)
qed

lemma run_one_slot:
  "one_slot \<sigma> \<Longrightarrow> run api sid \<sigma> acts = Some \<sigma>' \<Longrightarrow> one_slot \<sigma>'"
proof (induction acts arbitrary: \<sigma>)
  case Nil
  then show ?case by simp
next
  case (Cons a acts)
  then show ?case
    by (auto split: option.splits dest: act_one_slot)
qed

lemma initial_one_slot: "one_slot initial_system"
  by (simp add: one_slot_def initial_system_def initial_state_def)

lemma sample_run:
  "run sample_api sample_session initial_system
     [UI (InputChange (js ''hi'')), UI SendClick, UI (InputChange (js ''more'')), UI SendClick,
      UI (PromptClick (js ''What are your key technical skills?''))]
   = Some \<lparr>ui = \<lparr>messages = [\<lparr>role = User, content = js ''hi''\<rparr>], input = js ''more'',
                  loading = True, errorText = []\<rparr>,
            in_flight = [\<lparr>session = sample_session, message = js ''hi''\<rparr>]\<rparr>"
  by (simp add: initial_system_def initial_state_def sendMessage_def quickSend_def trim_def
      isWhiteSpace_def js_def chr_def Let_def)

text \<open>
  Claim C5. A submit made while \<open>loading\<close> is set changes nothing (the log, the flag and
  every other part of the state are as before) and hands nothing to \<open>fetch\<close>; it is not
  kept for later either. Hence, in every state the component reaches from its initial
  state through user events and settling calls, at most one call is outstanding, and one is
  outstanding exactly while \<open>loading\<close> is set.
\<close>

theorem submit_while_pending_rejected:
  "(loading s \<longrightarrow> sendMessage sid s overrideText = (s, None))
   \<and> (run api sid initial_system acts = Some \<sigma> \<longrightarrow>
        length (in_flight \<sigma>) \<le> 1 \<and> (length (in_flight \<sigma>) = 1 \<longleftrightarrow> loading (ui \<sigma>)))"
  using run_one_slot [OF initial_one_slot, of api sid acts \<sigma>]
  by (auto simp: sendMessage_loading one_slot_def split: if_splits)

text \<open>
  Instance: "hi" is sent; a second click on Send and a click on a suggested prompt while
  the call is pending add no request.
\<close>

theorem submit_while_pending_rejected_witness:
  "sendMessage sample_session sample_pending (Some (js ''again'')) = (sample_pending, None)
   \<and> run sample_api sample_session initial_system
        [UI (InputChange (js ''hi'')), UI SendClick, UI (InputChange (js ''more'')), UI SendClick,
         UI (PromptClick (js ''What are your key technical skills?''))]
      = Some \<lparr>ui = \<lparr>messages = [\<lparr>role = User, content = js ''hi''\<rparr>], input = js ''more'',
                     loading = True, errorText = []\<rparr>,
               in_flight = [\<lparr>session = sample_session, message = js ''hi''\<rparr>]\<rparr>
   \<and> length [\<lparr>session = sample_session, message = js ''hi''\<rparr>] \<le> 1"
proof -
  have pending: "loading sample_pending"
    by (simp add: sample_pending_def)
  show ?thesis
    using pending sample_run
      submit_while_pending_rejected [where s = sample_pending and sid = sample_session
        and overrideText = "Some (js ''again'')" and api = sample_api
        and acts = "[UI (InputChange (js ''hi'')), UI SendClick, UI (InputChange (js ''more'')),
                     UI SendClick, UI (PromptClick (js ''What are your key technical skills?''))]"
        and \<sigma> = "\<lparr>ui = \<lparr>messages = [\<lparr>role = User, content = js ''hi''\<rparr>], input = js ''more'',
                     loading = True, errorText = []\<rparr>,
               in_flight = [\<lparr>session = sample_session, message = js ''hi''\<rparr>]\<rparr>"]
    by simp
qed

text \<open>
  Claim C8. For an ok response whose body can be read: if the content type contains
  "application/json", the body is parsed and the assistant message is the string the
  extractor finds in the parsed value, or \<open>JSON.stringify\<close> of the whole value when it
  finds none. Otherwise the body is taken as text and a parse is tried; when the parse
  fails the assistant message is the raw text, which is what the extractor returns for
  the raw text as a string payload; when it succeeds the message is the extracted string,
  or the raw text when the extractor finds none.
\<close>

theorem success_reply_by_content_type:
  assumes "ok resp" and "body resp = Inr b"
  shows "(js_includes (case content_type resp of None \<Rightarrow> [] | Some c \<Rightarrow> c) (js ''application/json'')
            \<and> JSON_parse api b = Inr data \<longrightarrow>
          sendMessage_resume api s (Resolved resp) =
            s\<lparr>messages := messages s @
                 [\<lparr>role = Assistant,
                   content = (case extractText data of
                                Some reply \<Rightarrow> reply | None \<Rightarrow> JSON_stringify api data)\<rparr>],
              loading := False\<rparr>)
       \<and> (\<not> js_includes (case content_type resp of None \<Rightarrow> [] | Some c \<Rightarrow> c) (js ''application/json'')
            \<and> JSON_parse api b = Inl e \<longrightarrow>
          sendMessage_resume api s (Resolved resp) =
            s\<lparr>messages := messages s @ [\<lparr>role = Assistant, content = b\<rparr>], loading := False\<rparr>
          \<and> extractText (JString b) = Some b)
       \<and> (\<not> js_includes (case content_type resp of None \<Rightarrow> [] | Some c \<Rightarrow> c) (js ''application/json'')
            \<and> JSON_parse api b = Inr data \<longrightarrow>
          sendMessage_resume api s (Resolved resp) =
            s\<lparr>messages := messages s @
                 [\<lparr>role = Assistant,
                   content = (case extractText data of Some reply \<Rightarrow> reply | None \<Rightarrow> b)\<rparr>],
              loading := False\<rparr>)"
  using assms
  by (auto simp: sendMessage_resume_def try_block_def Let_def split: option.splits)

text \<open>
  Instances: a JSON response with the body "null" (no string to extract, so the message
  is the rendering of the value), a plain text response "hello", and a response without a
  content type whose body "{}" parses.
\<close>

theorem success_reply_by_content_type_witness:
  "sendMessage_resume sample_api sample_pending (Resolved sample_response_json_null) =
     \<lparr>messages = [\<lparr>role = User, content = js ''hi''\<rparr>,
                  \<lparr>role = Assistant, content = js ''null''\<rparr>],
      input = [], loading = False, errorText = []\<rparr>
   \<and> sendMessage_resume sample_api sample_pending (Resolved sample_response_text) =
     \<lparr>messages = [\<lparr>role = User, content = js ''hi''\<rparr>,
                  \<lparr>role = Assistant, content = js ''hello''\<rparr>],
      input = [], loading = False, errorText = []\<rparr>
   \<and> sendMessage_resume sample_api sample_pending (Resolved sample_response_mislabelled) =
     \<lparr>messages = [\<lparr>role = User, content = js ''hi''\<rparr>,
                  \<lparr>role = Assistant, content = js ''{}''\<rparr>],
      input = [], loading = False, errorText = []\<rparr>"
proof -
  have ok1: "ok sample_response_json_null" and b1: "body sample_response_json_null = Inr (js ''null'')"
    by (simp_all add: sample_response_json_null_def)
  have ok2: "ok sample_response_text" and b2: "body sample_response_text = Inr (js ''hello'')"
    by (simp_all add: sample_response_text_def)
  have ok3: "ok sample_response_mislabelled" and b3: "body sample_response_mislabelled = Inr (js ''{}'')"
    by (simp_all add: sample_response_mislabelled_def)
  have p1: "JSON_parse sample_api (js ''null'') = Inr JNull"
    by (simp add: sample_api_def sample_parse_def)
  have p2: "JSON_parse sample_api (js ''hello'') = Inl (js ''Unexpected token'')"
    by (simp add: sample_api_def sample_parse_def js_def chr_def)
  have p3: "JSON_parse sample_api (js ''{}'') = Inr (JObject [])"
    by (simp add: sample_api_def sample_parse_def js_def chr_def)
  have c1: "js_includes (case content_type sample_response_json_null of None \<Rightarrow> [] | Some c \<Rightarrow> c)
              (js ''application/json'')"
    by (simp add: sample_response_json_null_def js_def)
  have c2: "\<not> js_includes (case content_type sample_response_text of None \<Rightarrow> [] | Some c \<Rightarrow> c)
              (js ''application/json'')"
    by (simp add: sample_response_text_def js_def chr_def)
  have c3: "\<not> js_includes (case content_type sample_response_mislabelled of None \<Rightarrow> [] | Some c \<Rightarrow> c)
              (js ''application/json'')"
    by (simp add: sample_response_mislabelled_def js_def)
  have s3: "JSON_stringify sample_api JNull = js ''null''"
    by (simp add: sample_api_def sample_stringify_def)
  have e3: "extractText (JObject []) = None"
    by (simp add: keys_def string_at_def)
  show ?thesis
    using success_reply_by_content_type [OF ok1 b1, where api = sample_api and s = sample_pending
        and data = JNull]
      success_reply_by_content_type [OF ok2 b2, where api = sample_api and s = sample_pending
        and e = "js ''Unexpected token''"]
      success_reply_by_content_type [OF ok3 b3, where api = sample_api and s = sample_pending
        and data = "JObject []"]
      p1 p2 p3 c1 c2 c3 s3 e3
    by (simp add: sample_pending_def)
qed

text \<open>
  Claim C9, as the code has it. The handler looks at the Shift key only. An Enter keypress
  without Shift calls \<open>sendMessage\<close> on the draft and suppresses the default action of
  the key, whatever the state of Ctrl, Alt and Meta. An Enter keypress with Shift, like
  any other key, calls nothing, changes nothing and leaves the default action to the
  browser, which for Enter in a textarea inserts the line break.
\<close>

theorem enter_without_shift_submits:
  "(key e = js ''Enter'' \<and> \<not> shiftKey e \<longrightarrow>
      onKeyDown sid s e = (fst (sendMessage sid s None), snd (sendMessage sid s None), True))
   \<and> (key e = js ''Enter'' \<and> \<not> shiftKey e \<and> \<not> loading s \<and> trim (input s) \<noteq> [] \<longrightarrow>
      fst (snd (onKeyDown sid s e)) = Some \<lparr>session = sid, message = trim (input s)\<rparr>)
   \<and> (key e = js ''Enter'' \<and> shiftKey e \<longrightarrow> onKeyDown sid s e = (s, None, False))
   \<and> (key e \<noteq> js ''Enter'' \<longrightarrow> onKeyDown sid s e = (s, None, False))"
  by (simp add: onKeyDown_def sendMessage_def Let_def)

text \<open>Instances: plain Enter on the draft "hi" sends it; Shift+Enter does nothing.\<close>

theorem enter_without_shift_submits_witness:
  "onKeyDown sample_session (initial_state\<lparr>input := js ''hi''\<rparr>) (enter_key False False)
     = (\<lparr>messages = [\<lparr>role = User, content = js ''hi''\<rparr>], input = [], loading = True,
         errorText = []\<rparr>,
        Some \<lparr>session = sample_session, message = js ''hi''\<rparr>, True)
   \<and> onKeyDown sample_session (initial_state\<lparr>input := js ''hi''\<rparr>) (enter_key True False)
     = (initial_state\<lparr>input := js ''hi''\<rparr>, None, False)"
proof -
  have plain: "key (enter_key False False) = js ''Enter'' \<and> \<not> shiftKey (enter_key False False)"
    and shifted: "key (enter_key True False) = js ''Enter'' \<and> shiftKey (enter_key True False)"
    by (simp_all add: enter_key_def)
  have sent: "sendMessage sample_session (initial_state\<lparr>input := js ''hi''\<rparr>) None
     = (\<lparr>messages = [\<lparr>role = User, content = js ''hi''\<rparr>], input = [], loading = True,
         errorText = []\<rparr>,
        Some \<lparr>session = sample_session, message = js ''hi''\<rparr>)"
    by (simp add: sendMessage_def initial_state_def trim_def isWhiteSpace_def js_def chr_def Let_def)
  show ?thesis
    using plain shifted sent
      enter_without_shift_submits [where e = "enter_key False False" and sid = sample_session
        and s = "initial_state\<lparr>input := js ''hi''\<rparr>"]
      enter_without_shift_submits [where e = "enter_key True False" and sid = sample_session
        and s = "initial_state\<lparr>input := js ''hi''\<rparr>"]
    by simp
qed

text \<open>
  Against claim C9 as stated: Enter with the Ctrl key held, Shift not held, on the draft
  "hi" submits the draft.
\<close>

theorem ctrl_enter_submits:
  "onKeyDown sample_session (initial_state\<lparr>input := js ''hi''\<rparr>) (enter_key False True)
     = (\<lparr>messages = [\<lparr>role = User, content = js ''hi''\<rparr>], input = [], loading = True,
         errorText = []\<rparr>,
        Some \<lparr>session = sample_session, message = js ''hi''\<rparr>, True)"
  by (simp add: onKeyDown_def enter_key_def initial_state_def sendMessage_def trim_def
      isWhiteSpace_def js_def chr_def Let_def)

text \<open>
  Claim C10. Choosing a suggested prompt while a call is pending does nothing: the state,
  the draft included, is as before and nothing is handed to \<open>fetch\<close>. When no call is
  pending, \<open>quickSend\<close> sets the draft to the prompt and calls \<open>sendMessage\<close> with the
  prompt at once; for a prompt that is not blank that submit sends the trimmed prompt,
  appends it to the log and, as every submit does, clears the draft.
\<close>

theorem quickSend_pending_noop:
  "(loading s \<longrightarrow> quickSend sid s prompt = (s, None))
   \<and> (\<not> loading s \<longrightarrow>
        quickSend sid s prompt = sendMessage sid (s\<lparr>input := prompt\<rparr>) (Some prompt))
   \<and> (\<not> loading s \<and> trim prompt \<noteq> [] \<longrightarrow>
        quickSend sid s prompt =
          (s\<lparr>errorText := [], loading := True,
             messages := messages s @ [\<lparr>role = User, content = trim prompt\<rparr>],
             input := []\<rparr>,
           Some \<lparr>session = sid, message = trim prompt\<rparr>))
   \<and> (snd (quickSend sid s prompt) \<noteq> None \<longrightarrow> \<not> loading s)"
  by (simp add: quickSend_def sendMessage_def Let_def)

text \<open>
  Instances: a prompt chosen while the call for "hi" is pending, and the same prompt
  chosen in the initial state.
\<close>

theorem quickSend_pending_noop_witness:
  "quickSend sample_session sample_pending (js ''What are your key technical skills?'')
     = (sample_pending, None)
   \<and> quickSend sample_session initial_state (js ''What are your key technical skills?'')
     = (\<lparr>messages = [\<lparr>role = User, content = js ''What are your key technical skills?''\<rparr>],
         input = [], loading = True, errorText = []\<rparr>,
        Some \<lparr>session = sample_session, message = js ''What are your key technical skills?''\<rparr>)"
proof -
  have pending: "loading sample_pending" and idle: "\<not> loading initial_state"
    by (simp_all add: sample_pending_def initial_state_def)
  have tr: "trim (js ''What are your key technical skills?'') = js ''What are your key technical skills?''"
    by code_simp
  have ne: "trim (js ''What are your key technical skills?'') \<noteq> []"
    by (simp only: tr) (simp add: js_def)
  have a: "quickSend sample_session sample_pending (js ''What are your key technical skills?'')
     = (sample_pending, None)"
    using quickSend_pending_noop [where s = sample_pending and sid = sample_session
        and prompt = "js ''What are your key technical skills?''"] pending
    by blast
  have b: "quickSend sample_session initial_state (js ''What are your key technical skills?'')
     = (initial_state\<lparr>errorText := [], loading := True,
             messages := messages initial_state @
               [\<lparr>role = User, content = trim (js ''What are your key technical skills?'')\<rparr>],
             input := []\<rparr>,
           Some \<lparr>session = sample_session,
                 message = trim (js ''What are your key technical skills?'')\<rparr>)"
    using quickSend_pending_noop [where s = initial_state and sid = sample_session
        and prompt = "js ''What are your key technical skills?''"] idle ne
    by blast
  show ?thesis
    unfolding a b tr by (simp add: initial_state_def)
qed

section \<open>Properties of the session identifier\<close>

lemma toString16_byte:
  "n < 256 \<Longrightarrow>
     toString16 n =
       (if n < 16 then [hexDigit n] else [hexDigit (n div 16), hexDigit (n mod 16)])"
  by (subst toString16.simps, subst toString16.simps) (auto simp: div_less_iff_less_mult)

lemma toHex_digits: "toHex b = [hexDigit (unat b div 16), hexDigit (unat b mod 16)]"
proof -
  have lt: "unat b < 256"
    using unsigned_less [of b, where 'a = nat] by simp
  show ?thesis
    using toString16_byte [OF lt]
    by (auto simp: toHex_def padStart_def js_def chr_def hexDigit_def)
qed

lemma hexDigit_member: "d < 16 \<Longrightarrow> hexDigit d \<in> set (js ''0123456789abcdef'')"
proof -
  assume "d < 16"
  then have "d < length (js ''0123456789abcdef'')"
    by (simp add: js_def)
  then have "js ''0123456789abcdef'' ! d \<in> set (js ''0123456789abcdef'')"
    by (rule nth_mem)
  then show ?thesis
    by (simp only: hexDigit_def)
qed

lemma version_nibble: "unat ((b AND 0x0f) OR 0x40 :: u8) div 16 = 4"
proof -
  have "drop_bit 4 ((b AND 0x0f) OR 0x40 :: u8) = 4"
    by (rule bit_word_eqI) (auto simp: bit_simps)
  then have "unat (((b AND 0x0f) OR 0x40 :: u8) div 16) = 4"
    by (simp add: drop_bit_eq_div)
  then show ?thesis
    by (simp add: unat_div)
qed

lemma variant_nibble: "unat ((b AND 0x3f) OR 0x80 :: u8) div 16 \<in> {8, 9, 10, 11}"
proof -
  have le: "unat (b AND 0x3f) \<le> 63"
    using word_and_le1 [of b "0x3f"] by (simp add: word_le_nat_alt)
  have "(0x3f :: u8) AND 0x80 = 0"
    by simp
  then have disj: "(b AND 0x3f) AND 0x80 = 0"
    by (simp only: and.assoc and_zero_eq)
  have plus: "(b AND 0x3f) OR 0x80 = (b AND 0x3f) + 0x80"
    using disjunctive_add_eq_or [OF disj] by simp
  have "unat (b AND 0x3f) + unat (0x80 :: u8) < 2 ^ LENGTH(8)"
    using le by simp
  then have "unat ((b AND 0x3f) + 0x80) = unat (b AND 0x3f) + unat (0x80 :: u8)"
    by (simp only: unat_add_lem)
  then have val: "unat ((b AND 0x3f) OR 0x80) = unat (b AND 0x3f) + 128"
    using plus by simp
  have "128 \<le> unat (b AND 0x3f) + 128" and "unat (b AND 0x3f) + 128 \<le> 191"
    using le by simp_all
  then have "(unat (b AND 0x3f) + 128) div 16 \<in> {8, 9, 10, 11}"
    by (simp only: insert_iff empty_iff) arith
  then show ?thesis
    by (simp only: val)
qed

lemma matches_x: "d < 16 \<Longrightarrow> matches_char CHR ''x'' (hexDigit d)"
  by (simp only: matches_char_def refl if_True hexDigit_member)

lemma matches_hi: "matches_char CHR ''x'' (hexDigit (unat (b :: u8) div 16))"
proof -
  have "unat b < 256"
    using unsigned_less [of b, where 'a = nat] by simp
  then have "unat b div 16 < 16"
    by arith
  then show ?thesis
    by (rule matches_x)
qed

lemma matches_lo: "matches_char CHR ''x'' (hexDigit (n mod 16))"
  by (rule matches_x) simp

lemma matches_dash: "matches_char CHR ''-'' (chr CHR ''-'')"
  by (simp add: matches_char_def)

lemma matches_4: "matches_char CHR ''4'' (hexDigit 4)"
  by (simp add: matches_char_def hexDigit_def js_def)

lemma matches_y: "d \<in> {8, 9, 10, 11} \<Longrightarrow> matches_char CHR ''y'' (hexDigit d)"
  by (auto simp: matches_char_def hexDigit_def js_def)

lemma list16:
  "length (bs :: 'a list) = 16 \<Longrightarrow>
     \<exists>b0 b1 b2 b3 b4 b5 b6 b7 b8 b9 b10 b11 b12 b13 b14 b15.
       bs = [b0, b1, b2, b3, b4, b5, b6, b7, b8, b9, b10, b11, b12, b13, b14, b15]"
  by (simp add: numeral_eq_Suc length_Suc_conv) blast

lemma fill_loop_length: "length (fill_loop rnd i bytes) = length bytes"
proof (induction rnd i bytes rule: fill_loop.induct)
  case (1 rnd i bytes)
  show ?case
  proof (cases "i < 16")
    case True
    then show ?thesis
      using "1.IH" by (subst fill_loop.simps) simp
  next
    case False
    then show ?thesis
      by (subst fill_loop.simps) simp
  qed
qed

lemma uuid_of_16_bytes:
  assumes len: "length bytes1 = 16"
  shows "is_uuid_v4
     (let bytes2 = bytes1[6 := (bytes1 ! 6 AND 0x0f) OR 0x40];
          bytes3 = bytes2[8 := (bytes2 ! 8 AND 0x3f) OR 0x80];
          hex = concat (map toHex bytes3)
      in slice hex 0 8 @ js ''-'' @ slice hex 8 12 @ js ''-'' @ slice hex 12 16 @ js ''-''
         @ slice hex 16 20 @ js ''-'' @ drop 20 hex)"
proof -
  obtain b0 b1 b2 b3 b4 b5 b6 b7 b8 b9 b10 b11 b12 b13 b14 b15
    where bs: "bytes1 = [b0, b1, b2, b3, b4, b5, b6, b7, b8, b9, b10, b11, b12, b13, b14, b15]"
    using list16 [OF len] by blast
  define v6 where "v6 = (b6 AND 0x0f) OR 0x40"
  define v8 where "v8 = (b8 AND 0x3f) OR 0x80"
  have n6: "bytes1 ! 6 = b6"
    by (simp add: bs)
  have u6: "bytes1[6 := v6] = [b0, b1, b2, b3, b4, b5, v6, b7, b8, b9, b10, b11, b12, b13, b14, b15]"
    by (simp add: bs numeral_eq_Suc)
  have n8: "[b0, b1, b2, b3, b4, b5, v6, b7, b8, b9, b10, b11, b12, b13, b14, b15] ! 8 = b8"
    by simp
  have u8: "[b0, b1, b2, b3, b4, b5, v6, b7, b8, b9, b10, b11, b12, b13, b14, b15][8 := v8]
      = [b0, b1, b2, b3, b4, b5, v6, b7, v8, b9, b10, b11, b12, b13, b14, b15]"
    by (simp add: numeral_eq_Suc)
  have m4: "matches_char CHR ''4'' (hexDigit (unat v6 div 16))"
    using matches_4 by (simp only: v6_def version_nibble)
  have my: "matches_char CHR ''y'' (hexDigit (unat v8 div 16))"
    using matches_y [OF variant_nibble [of b8]] by (simp only: v8_def)
  have "is_uuid_v4
     (let hex = concat (map toHex [b0, b1, b2, b3, b4, b5, v6, b7, v8, b9, b10, b11, b12, b13, b14, b15])
      in slice hex 0 8 @ js ''-'' @ slice hex 8 12 @ js ''-'' @ slice hex 12 16 @ js ''-''
         @ slice hex 16 20 @ js ''-'' @ drop 20 hex)"
    by (simp add: Let_def toHex_digits slice_def js_def is_uuid_v4_def
        matches_hi matches_lo matches_dash m4 my)
  then show ?thesis
    by (simp only: Let_def n6 u6 n8 u8 v6_def [symmetric] v8_def [symmetric])
qed

lemma sample_session_is_uuid: "is_uuid_v4 sample_session"
  by (simp add: sample_session_def is_uuid_v4_def matches_char_def js_def chr_def)

lemma sample_weak_value:
  "sessionId sample_crypto_weak = js ''fffcf9f6-f3f0-4dea-a7e4-e1dedbd8d5d2''"
  by code_simp

text \<open>
  Claim C6. On the two fallback paths (bytes from \<open>getRandomValues\<close>, or from
  \<open>Math.random\<close>) the identifier matches the pattern xxxxxxxx-xxxx-4xxx-yxxx-xxxxxxxxxxxx,
  with y one of 8, 9, a, b and lower-case hexadecimal digits, whatever the sixteen bytes
  are. On the native path the identifier is what \<open>crypto.randomUUID\<close> returned, unchanged;
  so the identifier matches the pattern on every path, given that the platform's
  \<open>randomUUID\<close> returns a string of that pattern.
\<close>

theorem sessionId_is_uuid_v4:
  "(randomUUID env = None \<longrightarrow> is_uuid_v4 (sessionId env))
   \<and> (randomUUID env = Some u \<longrightarrow> sessionId env = u)
   \<and> ((\<forall>u. randomUUID env = Some u \<longrightarrow> is_uuid_v4 u) \<longrightarrow> is_uuid_v4 (sessionId env))"
proof -
  have fallback: "is_uuid_v4 (sessionId env)" if none: "randomUUID env = None"
  proof -
    define bytes1 where "bytes1 = (case getRandomValues env of
                           Some f \<Rightarrow> map f [0..<length (replicate 16 (0 :: u8))]
                         | None \<Rightarrow> fill_loop (Math_random_256 env) 0 (replicate 16 (0 :: u8)))"
    have "length bytes1 = 16"
      by (simp add: bytes1_def fill_loop_length split: option.splits)
    from uuid_of_16_bytes [OF this] show ?thesis
      by (simp add: sessionId_def none bytes1_def Let_def)
  qed
  have native: "sessionId env = u" if "randomUUID env = Some u" for u
    using that by (simp add: sessionId_def)
  show ?thesis
    using fallback native by (cases "randomUUID env") auto
qed

text \<open>
  Instances, one for each path: a platform with \<open>randomUUID\<close>, one with
  \<open>getRandomValues\<close> only, and one with neither, where the bytes 255, 252, 249, ... give
  fffcf9f6-f3f0-4dea-a7e4-e1dedbd8d5d2.
\<close>

theorem sessionId_is_uuid_v4_witness:
  "is_uuid_v4 (sessionId sample_crypto_native)
   \<and> sessionId sample_crypto_native = sample_session
   \<and> is_uuid_v4 (sessionId sample_crypto_strong)
   \<and> is_uuid_v4 (sessionId sample_crypto_weak)
   \<and> sessionId sample_crypto_weak = js ''fffcf9f6-f3f0-4dea-a7e4-e1dedbd8d5d2''"
proof -
  have n: "randomUUID sample_crypto_native = Some sample_session"
    and s: "randomUUID sample_crypto_strong = None"
    and w: "randomUUID sample_crypto_weak = None"
    by (simp_all add: sample_crypto_native_def sample_crypto_strong_def sample_crypto_weak_def)
  have a: "sessionId sample_crypto_native = sample_session"
    using sessionId_is_uuid_v4 [of sample_crypto_native sample_session] n by blast
  have b: "is_uuid_v4 (sessionId sample_crypto_strong)"
    using sessionId_is_uuid_v4 [of sample_crypto_strong] s by blast
  have c: "is_uuid_v4 (sessionId sample_crypto_weak)"
    using sessionId_is_uuid_v4 [of sample_crypto_weak] w by blast
  show ?thesis
    using a b c sample_session_is_uuid sample_weak_value by simp
qed

section \<open>Properties of the rendering\<close>

lemma replaceAll_append: "replaceAll (xs @ ys) p rep = replaceAll xs p rep @ replaceAll ys p rep"
  by (simp add: replaceAll_def)

lemma escapeHtml_append: "escapeHtml (xs @ ys) = escapeHtml xs @ escapeHtml ys"
  by (simp add: escapeHtml_def replaceAll_append)

lemma escapeHtml_single: "escapeHtml [c] = html_entity c"
  by (simp add: escapeHtml_def replaceAll_def html_entity_def js_def chr_def)

lemma escapeHtml_Nil: "escapeHtml [] = []"
  by (simp add: escapeHtml_def replaceAll_def)

lemma escapeHtml_single_pass: "escapeHtml raw = concat (map html_entity raw)"
proof (induction raw)
  case Nil
  show ?case by (simp add: escapeHtml_Nil)
next
  case (Cons c cs)
  have "escapeHtml (c # cs) = escapeHtml ([c] @ cs)"
    by simp
  also have "\<dots> = html_entity c @ escapeHtml cs"
    by (simp only: escapeHtml_append escapeHtml_single)
  finally show ?case
    using Cons.IH by simp
qed

lemma renderMarkdown_total: "\<exists>h. renderMarkdown env mdText = Inr h"
  by (simp add: renderMarkdown_def split: sum.splits)

text \<open>
  Claim C7, as the code has it. For every text and every state of the two libraries,
  \<open>renderMarkdown\<close> returns markup and no error leaves it. When \<open>marked\<close> throws, and when
  neither library is ready, the result is exactly the text with the five characters
  escaped, in one pass, between \<open><pre>\<close> and \<open></pre>\<close> on lines of their own: a function
  of the text alone. When \<open>marked\<close> is not ready and the sanitizer is, the result is what
  the sanitizer makes of that block, and the block itself if the sanitizer throws.
\<close>

theorem renderMarkdown_never_throws:
  "(\<exists>h. renderMarkdown env mdText = Inr h)
   \<and> (marked_parse env = Some parse \<and> parse mdText = Inl err \<longrightarrow>
        renderMarkdown env mdText = Inr (preformatted mdText))
   \<and> (marked_parse env = None \<and> DOMPurify_sanitize env = None \<longrightarrow>
        renderMarkdown env mdText = Inr (preformatted mdText))
   \<and> (marked_parse env = None \<and> DOMPurify_sanitize env = Some sanitize \<longrightarrow>
        renderMarkdown env mdText =
          Inr (case sanitize (preformatted mdText) of
                 Inr sanitized \<Rightarrow> sanitized
               | Inl err \<Rightarrow> preformatted mdText))
   \<and> preformatted mdText =
        js ''<pre>'' @ [chr CHR 0x0A] @ concat (map html_entity mdText) @ [chr CHR 0x0A]
        @ js ''</pre>''"
  using renderMarkdown_total [of env mdText]
  by (auto simp: renderMarkdown_def try_render_def preformatted_def escapeHtml_single_pass
      split: sum.splits)

text \<open>
  Instances for the text \<open><b>\<close>: \<open>marked\<close> throws while the sanitizer is ready; neither
  library is ready; only the sanitizer is ready.
\<close>

theorem renderMarkdown_never_throws_witness:
  "renderMarkdown \<lparr>marked_parse = Some failing_marked, DOMPurify_sanitize = Some sample_sanitize\<rparr>
       (js ''<b>'')
     = Inr (js ''<pre>'' @ [chr CHR 0x0A] @ js ''&lt;b&gt;'' @ [chr CHR 0x0A] @ js ''</pre>'')
   \<and> renderMarkdown \<lparr>marked_parse = None, DOMPurify_sanitize = None\<rparr> (js ''<b>'')
     = Inr (js ''<pre>'' @ [chr CHR 0x0A] @ js ''&lt;b&gt;'' @ [chr CHR 0x0A] @ js ''</pre>'')
   \<and> renderMarkdown \<lparr>marked_parse = None, DOMPurify_sanitize = Some sample_sanitize\<rparr> (js ''<b>'')
     = Inr (js ''<pre>'' @ [chr CHR 0x0A] @ js ''&lt;b&gt;'' @ [chr CHR 0x0A] @ js ''</pre>'')"
proof -
  have block: "preformatted (js ''<b>'')
      = js ''<pre>'' @ [chr CHR 0x0A] @ js ''&lt;b&gt;'' @ [chr CHR 0x0A] @ js ''</pre>''"
    by (simp add: preformatted_def escapeHtml_def replaceAll_def js_def chr_def)
  have same: "sample_sanitize (preformatted (js ''<b>'')) = Inr (preformatted (js ''<b>''))"
    unfolding block by (simp add: sample_sanitize_def js_def chr_def)
  have a: "renderMarkdown \<lparr>marked_parse = Some failing_marked, DOMPurify_sanitize = Some sample_sanitize\<rparr>
       (js ''<b>'') = Inr (preformatted (js ''<b>''))"
    using renderMarkdown_never_throws [where parse = failing_marked and mdText = "js ''<b>''"
        and env = "\<lparr>marked_parse = Some failing_marked, DOMPurify_sanitize = Some sample_sanitize\<rparr>"]
    by (simp add: failing_marked_def)
  have b: "renderMarkdown \<lparr>marked_parse = None, DOMPurify_sanitize = None\<rparr> (js ''<b>'')
      = Inr (preformatted (js ''<b>''))"
    using renderMarkdown_never_throws [where mdText = "js ''<b>''"
        and env = "\<lparr>marked_parse = None, DOMPurify_sanitize = None\<rparr>"]
    by simp
  have c: "renderMarkdown \<lparr>marked_parse = None, DOMPurify_sanitize = Some sample_sanitize\<rparr> (js ''<b>'')
      = Inr (preformatted (js ''<b>''))"
    using renderMarkdown_never_throws [where mdText = "js ''<b>''" and sanitize = sample_sanitize
        and env = "\<lparr>marked_parse = None, DOMPurify_sanitize = Some sample_sanitize\<rparr>"]
    by (simp add: same)
  show ?thesis
    unfolding a b c block by simp
qed

text \<open>
  Against claim C7 as stated: \<open>marked\<close> is not ready, the sanitizer is, and the text is
  \<open>it's\<close>. The result is the sanitizer's output, in which the apostrophe is no longer
  escaped; it is not the escaped block.
\<close>

theorem sanitizer_rewrites_fallback:
  "renderMarkdown \<lparr>marked_parse = None, DOMPurify_sanitize = Some sample_sanitize\<rparr> (js ''it's'')
     = Inr (js ''<pre>'' @ [chr CHR 0x0A] @ js ''it's'' @ [chr CHR 0x0A] @ js ''</pre>'')
   \<and> preformatted (js ''it's'')
     = js ''<pre>'' @ [chr CHR 0x0A] @ js ''it&#039;s'' @ [chr CHR 0x0A] @ js ''</pre>''
   \<and> renderMarkdown \<lparr>marked_parse = None, DOMPurify_sanitize = Some sample_sanitize\<rparr> (js ''it's'')
     \<noteq> Inr (preformatted (js ''it's''))"
  by (simp add: renderMarkdown_def try_render_def sample_sanitize_def preformatted_def
      escapeHtml_def replaceAll_def js_def chr_def)

end
